theory Spec2Isabelle
  imports Main "HOL-Library.Word"
begin

section \<open>Bytes, hexadecimal text and string splitting\<close>

text \<open>
  The server code (\<open>auth.ts\<close>, \<open>storage.ts\<close>, \<open>shared/schema.ts\<close>) is modelled
  as pure functions. A Node \<open>Buffer\<close> is a list of bytes, a JavaScript string
  is a \<open>string\<close> (the strings that matter here are ASCII: hexadecimal text,
  e-mail addresses, messages).
\<close>

type_synonym byte = "8 word"

text \<open>\<open>buf.toString("hex")\<close>: two lower-case digits per byte, high nibble first.\<close>

definition hexDigit :: "nat \<Rightarrow> char" where
  "hexDigit n = ''0123456789abcdef'' ! (n mod 16)"

fun toHex :: "byte list \<Rightarrow> string" where
  "toHex [] = []"
| "toHex (b # bs) = hexDigit (unat b div 16) # hexDigit (unat b mod 16) # toHex bs"

text \<open>
  \<open>Buffer.from(s, "hex")\<close>: decodes pairs of hexadecimal digits (either case) and
  stops, without throwing, at the first pair that is not hexadecimal; a trailing
  single character is dropped.
\<close>

definition hexVal :: "char \<Rightarrow> nat option" where
  "hexVal c =
     (let n = (of_char c :: nat) in
      if 48 \<le> n \<and> n \<le> 57 then Some (n - 48)
      else if 97 \<le> n \<and> n \<le> 102 then Some (n - 87)
      else if 65 \<le> n \<and> n \<le> 70 then Some (n - 55)
      else None)"

fun fromHex :: "string \<Rightarrow> byte list" where
  "fromHex (a # b # rest) =
     (case hexVal a of
        None \<Rightarrow> []
      | Some hi \<Rightarrow>
          (case hexVal b of
             None \<Rightarrow> []
           | Some lo \<Rightarrow> of_nat (16 * hi + lo) # fromHex rest))"
| "fromHex [a] = []"
| "fromHex [] = []"

text \<open>
  \<open>s.split(".")\<close>: the pieces of \<open>s\<close> between the separators; always at
  least one piece (\<open>"".split(".")\<close> is \<open>[""]\<close>).
\<close>

fun split :: "char \<Rightarrow> string \<Rightarrow> string list" where
  "split sep [] = [[]]"
| "split sep (c # cs) =
     (if c = sep then [] # split sep cs
      else (c # hd (split sep cs)) # tl (split sep cs))"

section \<open>Password hashing (\<open>hashPassword\<close>, \<open>comparePasswords\<close>)\<close>

text \<open>
  Exceptions of the JavaScript code are values of \<open>error\<close>; a function that can
  throw returns \<open>error + 'a\<close>.
\<close>

datatype error =
    TypeError          \<comment> \<open>\<open>scrypt\<close> called with an \<open>undefined\<close> salt\<close>
  | RangeError         \<comment> \<open>\<open>timingSafeEqual\<close> on buffers of different length\<close>
  | ZodError "string list"  \<comment> \<open>schema validation, with the messages of the failed checks\<close>
  | UniqueViolation    \<comment> \<open>the database refuses a duplicate \<open>id\<close> or \<open>email\<close>\<close>
  | NoEmailFromGoogle  \<comment> \<open>\<open>new Error("No email provided from Google")\<close>\<close>
  | SessionError       \<comment> \<open>the session store fails inside \<open>req.login\<close>\<close>

text \<open>
  What lies outside the repository is a parameter: Node's \<open>scrypt\<close> key derivation
  (password, salt, key length), the e-mail check of the validation library, and the
  process environment that fixes the origin of the reset link.
\<close>

record env =
  scrypt :: "string \<Rightarrow> string \<Rightarrow> nat \<Rightarrow> byte list"
  isEmail :: "string \<Rightarrow> bool"
  production :: bool
  repl :: "(string \<times> string) option"

text \<open>
  \<open>hashPassword\<close>: the 16 random bytes of \<open>randomBytes(16)\<close> are the argument
  \<open>rnd\<close>; the salt is their hexadecimal text, and that text is what \<open>scrypt\<close> gets.
\<close>

definition hashPassword :: "env \<Rightarrow> byte list \<Rightarrow> string \<Rightarrow> string" where
  "hashPassword e rnd password =
     (let salt = toHex rnd;
          buf = scrypt e password salt 64
      in toHex buf @ ''.'' @ salt)"

text \<open>\<open>crypto.timingSafeEqual\<close> throws when the lengths differ.\<close>

definition timingSafeEqual :: "byte list \<Rightarrow> byte list \<Rightarrow> error + bool" where
  "timingSafeEqual a b = (if length a \<noteq> length b then Inl RangeError else Inr (a = b))"

text \<open>
  \<open>comparePasswords\<close>: \<open>const [hashed, salt] = stored.split(".")\<close> takes the first
  two pieces; with no separator \<open>salt\<close> is \<open>undefined\<close> and \<open>scrypt\<close> throws.
\<close>

definition comparePasswords :: "env \<Rightarrow> string \<Rightarrow> string \<Rightarrow> error + bool" where
  "comparePasswords e supplied stored =
     (let parts = split CHR ''.'' stored;
          hashed = hd parts;
          hashedBuf = fromHex hashed
      in case tl parts of
           [] \<Rightarrow> Inl TypeError
         | salt # _ \<Rightarrow> timingSafeEqual hashedBuf (scrypt e supplied salt 64))"

text \<open>A stand-in environment, used only to evaluate the model on concrete inputs.\<close>

definition stub_scrypt :: "string \<Rightarrow> string \<Rightarrow> nat \<Rightarrow> byte list" where
  "stub_scrypt password salt n =
     take n (map (\<lambda>c. of_nat (of_char c)) (password @ salt) @ replicate n 0)"

definition stub_isEmail :: "string \<Rightarrow> bool" where
  "stub_isEmail s = (CHR ''@'' \<in> set s)"

definition stub_env :: env where
  "stub_env = \<lparr>scrypt = stub_scrypt, isEmail = stub_isEmail, production = False, repl = None\<rparr>"

section \<open>Request validation (\<open>shared/schema.ts\<close>)\<close>

text \<open>
  The password rule of \<open>baseUserSchema\<close>: a minimum length and four regular
  expressions; every failed check adds its message, in the order of the schema.
\<close>

definition isUpper :: "char \<Rightarrow> bool" where
  "isUpper c = (65 \<le> (of_char c :: nat) \<and> (of_char c :: nat) \<le> 90)"

definition isLower :: "char \<Rightarrow> bool" where
  "isLower c = (97 \<le> (of_char c :: nat) \<and> (of_char c :: nat) \<le> 122)"

definition isDigit :: "char \<Rightarrow> bool" where
  "isDigit c = (48 \<le> (of_char c :: nat) \<and> (of_char c :: nat) \<le> 57)"

definition passwordIssues :: "string \<Rightarrow> string list" where
  "passwordIssues pw =
     (if length pw < 8 then [''Password must be at least 8 characters''] else []) @
     (if list_ex isUpper pw then [] else [''Password must contain at least one uppercase letter'']) @
     (if list_ex isLower pw then [] else [''Password must contain at least one lowercase letter'']) @
     (if list_ex isDigit pw then [] else [''Password must contain at least one number'']) @
     (if list_ex (\<lambda>c. \<not> isUpper c \<and> \<not> isLower c \<and> \<not> isDigit c) pw then []
      else [''Password must contain at least one special character''])"

definition emailIssues :: "env \<Rightarrow> string \<Rightarrow> string list" where
  "emailIssues e em = (if isEmail e em then [] else [''Please enter a valid email address''])"

section \<open>The user table and \<open>DatabaseStorage\<close>\<close>

text \<open>
  A row of the \<open>users\<close> table. The two timestamp columns hold the text of
  \<open>toISOString()\<close>; the model keeps the millisecond count that text denotes.
  The table is the list of its rows together with the next value of the \<open>serial\<close>
  sequence behind \<open>id\<close>.
\<close>

record user =
  userId :: nat
  email :: string
  password :: string
  createdAt :: int
  isGoogleUser :: bool
  resetToken :: "string option"
  resetTokenExpiry :: "int option"

record store =
  rows :: "user list"
  nextId :: nat

text \<open>The three selects: \<open>const [user] = await db.select()...where(eq(...))\<close>, the first matching row.\<close>

definition getUser :: "store \<Rightarrow> nat \<Rightarrow> user option" where
  "getUser st i = find (\<lambda>u. userId u = i) (rows st)"

definition getUserByEmail :: "store \<Rightarrow> string \<Rightarrow> user option" where
  "getUserByEmail st em = find (\<lambda>u. email u = em) (rows st)"

definition getUserByResetToken :: "store \<Rightarrow> string \<Rightarrow> user option" where
  "getUserByResetToken st tok = find (\<lambda>u. resetToken u = Some tok) (rows st)"

text \<open>
  \<open>createUser\<close>: the insert takes the next \<open>id\<close> from the sequence and fixes
  \<open>isGoogleUser: false\<close> for every caller; the primary key and the \<open>unique\<close>
  constraint on \<open>email\<close> make the insert throw on a duplicate.
\<close>

definition createUser :: "store \<Rightarrow> int \<Rightarrow> string \<Rightarrow> string \<Rightarrow> store \<times> (error + user)" where
  "createUser st now em pw =
     (let u = \<lparr>userId = nextId st, email = em, password = pw, createdAt = now,
               isGoogleUser = False, resetToken = None, resetTokenExpiry = None\<rparr>;
          st1 = st\<lparr>nextId := Suc (nextId st)\<rparr>
      in if list_ex (\<lambda>r. userId r = userId u \<or> email r = em) (rows st)
         then (st1, Inl UniqueViolation)
         else (st1\<lparr>rows := rows st @ [u]\<rparr>, Inr u))"

definition setResetToken :: "store \<Rightarrow> nat \<Rightarrow> string \<Rightarrow> int \<Rightarrow> store" where
  "setResetToken st i tok expiry =
     st\<lparr>rows := map (\<lambda>u. if userId u = i
                           then u\<lparr>resetToken := Some tok, resetTokenExpiry := Some expiry\<rparr>
                           else u) (rows st)\<rparr>"

text \<open>\<open>updatePassword\<close>: one \<open>UPDATE\<close> that sets the three columns together.\<close>

definition updatePassword :: "store \<Rightarrow> nat \<Rightarrow> string \<Rightarrow> store" where
  "updatePassword st i hashedPassword =
     st\<lparr>rows := map (\<lambda>u. if userId u = i
                           then u\<lparr>password := hashedPassword, resetToken := None,
                                  resetTokenExpiry := None\<rparr>
                           else u) (rows st)\<rparr>"

section \<open>HTTP responses\<close>

text \<open>
  A JSON body is one of the shapes the handlers send: \<open>{message}\<close> with a
  literal text, \<open>{message, debug: {resetLink}}\<close>, a whole user row
  (\<open>res.json(user)\<close>), \<open>{message: error.message}\<close> for a caught error, or
  the plain text of \<open>res.sendStatus\<close>.
  \<open>Next\<close> is \<open>next(err)\<close>: the error goes to the framework's error handler.
\<close>

datatype body =
    Message string
  | MessageDebug string string
  | UserJson user
  | ErrorMessage error
  | StatusText string

datatype response = Resp nat body | Next error

section \<open>Password reset (\<open>/api/forgot-password\<close>, \<open>/api/reset-password\<close>)\<close>

definition origin :: "env \<Rightarrow> string" where
  "origin e =
     (if production e then ''https'' else ''http'') @ ''://'' @
     (case repl e of
        Some (slug, owner) \<Rightarrow> slug @ ''.'' @ owner @ ''.repl.co''
      | None \<Rightarrow> ''localhost:5000'')"

definition ack :: string where
  "ack = ''If an account exists with that email, a password reset link will be sent.''"

record forgot_result =
  f_store :: store
  f_outbox :: "(string \<times> string) list"
  f_log :: "string list"
  f_response :: response

text \<open>
  \<open>/api/forgot-password\<close>. Inputs besides the request's \<open>email\<close>: the clock
  \<open>now\<close> (milliseconds), the 32 bytes of \<open>randomBytes(32)\<close>, and whether the mail
  service delivers (\<open>sendPasswordResetEmail\<close> returns that boolean and never throws).
  The expiry is one hour after \<open>now\<close>.
\<close>

definition forgot_password ::
  "env \<Rightarrow> store \<Rightarrow> int \<Rightarrow> byte list \<Rightarrow> bool \<Rightarrow> string \<Rightarrow> forgot_result" where
  "forgot_password e st now rnd mailOk em =
     (if emailIssues e em \<noteq> [] then
        \<lparr>f_store = st, f_outbox = [], f_log = [],
         f_response = Resp 400 (ErrorMessage (ZodError (emailIssues e em)))\<rparr>
      else
        case getUserByEmail st em of
          None \<Rightarrow>
            \<lparr>f_store = st, f_outbox = [], f_log = [], f_response = Resp 200 (Message ack)\<rparr>
        | Some u \<Rightarrow>
            (let token = toHex rnd;
                 expiry = now + 3600000;
                 st' = setResetToken st (userId u) token expiry;
                 resetLink = origin e @ ''/auth/reset-password?token='' @ token
             in \<lparr>f_store = st',
                 f_outbox = [(em, resetLink)],
                 f_log = (if mailOk then [] else [''Failed to send password reset email'']),
                 f_response = Resp 200 (MessageDebug ack resetLink)\<rparr>))"

text \<open>
  \<open>/api/reset-password\<close>. \<open>new Date(user.resetTokenExpiry!)\<close> of a \<open>null\<close> column
  is the epoch; the token is refused as expired when \<open>expiry < new Date()\<close>.
\<close>

definition reset_password ::
  "env \<Rightarrow> store \<Rightarrow> int \<Rightarrow> byte list \<Rightarrow> string \<Rightarrow> string \<Rightarrow> store \<times> response" where
  "reset_password e st now rnd token pw =
     (if passwordIssues pw \<noteq> [] then (st, Resp 400 (ErrorMessage (ZodError (passwordIssues pw))))
      else
        case getUserByResetToken st token of
          None \<Rightarrow> (st, Resp 400 (Message ''Invalid or expired reset token''))
        | Some u \<Rightarrow>
            (let expiry = (case resetTokenExpiry u of None \<Rightarrow> 0 | Some t \<Rightarrow> t)
             in if expiry < now then (st, Resp 400 (Message ''Reset token has expired''))
                else (updatePassword st (userId u) (hashPassword e rnd pw),
                      Resp 200 (Message ''Password updated successfully''))))"

section \<open>Strategies and sessions\<close>

datatype verify_result = DoneError error | DoneFail string | DoneUser user

text \<open>The \<open>LocalStrategy\<close> callback.\<close>

definition localVerify :: "env \<Rightarrow> store \<Rightarrow> string \<Rightarrow> string \<Rightarrow> verify_result" where
  "localVerify e st em pw =
     (case getUserByEmail st em of
        None \<Rightarrow> DoneFail ''Invalid email or password''
      | Some u \<Rightarrow>
          (case comparePasswords e pw (password u) of
             Inl err \<Rightarrow> DoneError err
           | Inr ok \<Rightarrow> if ok then DoneUser u else DoneFail ''Invalid email or password''))"

text \<open>
  The \<open>GoogleStrategy\<close> callback. \<open>profileEmail\<close> is \<open>profile.emails?.[0]?.value\<close>;
  \<open>rndPw\<close> and \<open>rndSalt\<close> are the bytes of the two \<open>randomBytes\<close> calls.
\<close>

definition googleVerify ::
  "env \<Rightarrow> store \<Rightarrow> int \<Rightarrow> byte list \<Rightarrow> byte list \<Rightarrow> string option \<Rightarrow> store \<times> verify_result" where
  "googleVerify e st now rndPw rndSalt profileEmail =
     (case profileEmail of
        None \<Rightarrow> (st, DoneError NoEmailFromGoogle)
      | Some em \<Rightarrow>
          if em = [] then (st, DoneError NoEmailFromGoogle)
          else
            (case getUserByEmail st em of
               Some u \<Rightarrow> (st, DoneUser u)
             | None \<Rightarrow>
                 (case createUser st now em (hashPassword e rndSalt (toHex rndPw)) of
                    (st', Inl err) \<Rightarrow> (st', DoneError err)
                  | (st', Inr u) \<Rightarrow> (st', DoneUser u))))"

text \<open>
  The session holds only the user's id (\<open>serializeUser\<close>); every request looks the
  row up again (\<open>deserializeUser\<close>), and a request is authenticated when that finds one.
\<close>

type_synonym session = "nat option"

definition deserializeUser :: "store \<Rightarrow> session \<Rightarrow> user option" where
  "deserializeUser st s = (case s of None \<Rightarrow> None | Some i \<Rightarrow> getUser st i)"

record auth_result =
  a_store :: store
  a_session :: session
  a_response :: response

text \<open>
  \<open>req.login(user, cb)\<close>: stores \<open>user.id\<close> in the session and answers with the
  given status and the user as JSON; \<open>sessionOk\<close> is false when the session store fails.
\<close>

definition req_login :: "store \<Rightarrow> session \<Rightarrow> bool \<Rightarrow> nat \<Rightarrow> user \<Rightarrow> auth_result" where
  "req_login st s sessionOk code u =
     (if sessionOk
      then \<lparr>a_store = st, a_session = Some (userId u), a_response = Resp code (UserJson u)\<rparr>
      else \<lparr>a_store = st, a_session = s, a_response = Next SessionError\<rparr>)"

text \<open>\<open>/api/register\<close>.\<close>

definition register ::
  "env \<Rightarrow> store \<Rightarrow> session \<Rightarrow> int \<Rightarrow> byte list \<Rightarrow> bool \<Rightarrow> string \<Rightarrow> string \<Rightarrow> auth_result" where
  "register e st s now rnd sessionOk em pw =
     (let issues = emailIssues e em @ passwordIssues pw
      in if issues \<noteq> [] then
           \<lparr>a_store = st, a_session = s, a_response = Resp 400 (ErrorMessage (ZodError issues))\<rparr>
         else
           case getUserByEmail st em of
             Some existing \<Rightarrow>
               \<lparr>a_store = st, a_session = s,
                a_response = Resp 400 (Message ''Email already registered'')\<rparr>
           | None \<Rightarrow>
               (case createUser st now em (hashPassword e rnd pw) of
                  (st', Inl err) \<Rightarrow>
                    \<lparr>a_store = st', a_session = s, a_response = Resp 400 (ErrorMessage err)\<rparr>
                | (st', Inr u) \<Rightarrow> req_login st' s sessionOk 201 u))"

text \<open>
  \<open>/api/login\<close>. The local strategy of the passport library refuses an empty e-mail
  or password with \<open>Missing credentials\<close> before it calls the callback.
\<close>

definition login ::
  "env \<Rightarrow> store \<Rightarrow> session \<Rightarrow> bool \<Rightarrow> string \<Rightarrow> string \<Rightarrow> auth_result" where
  "login e st s sessionOk em pw =
     (case (if em = [] \<or> pw = [] then DoneFail ''Missing credentials''
            else localVerify e st em pw) of
        DoneError err \<Rightarrow> \<lparr>a_store = st, a_session = s, a_response = Next err\<rparr>
      | DoneFail msg \<Rightarrow>
          \<lparr>a_store = st, a_session = s,
           a_response = Resp 401 (Message (if msg = [] then ''Invalid credentials'' else msg))\<rparr>
      | DoneUser u \<Rightarrow> req_login st s sessionOk 200 u)"

text \<open>\<open>/api/user\<close>.\<close>

definition api_user :: "store \<Rightarrow> session \<Rightarrow> response" where
  "api_user st s =
     (case deserializeUser st s of
        None \<Rightarrow> Resp 401 (StatusText ''Unauthorized'')
      | Some u \<Rightarrow> Resp 200 (UserJson u))"

text \<open>Concrete tables for evaluating the handlers.\<close>

definition empty_store :: store where
  "empty_store = \<lparr>rows = [], nextId = 1\<rparr>"

definition alice :: user where
  "alice = \<lparr>userId = 1, email = ''a@x.com'',
            password = hashPassword stub_env [] ''Aa1!aaaa'', createdAt = 0,
            isGoogleUser = False, resetToken = Some ''tok'', resetTokenExpiry = Some 1000\<rparr>"

definition alice_store :: store where
  "alice_store = \<lparr>rows = [alice], nextId = 2\<rparr>"




section \<open>Store statements of the reset handler\<close>

text \<open>
  The statements \<open>/api/reset-password\<close> sends to the table, in order: none on the
  three refusing paths, the one \<open>storage.updatePassword(user.id, hashedPassword)\<close>
  on the accepting path. The table passes only through the states between
  statements.
\<close>

datatype store_write = UpdatePassword nat string

fun apply_write :: "store \<Rightarrow> store_write \<Rightarrow> store" where
  "apply_write st (UpdatePassword i h) = updatePassword st i h"

definition reset_password_writes ::
  "env \<Rightarrow> store \<Rightarrow> int \<Rightarrow> byte list \<Rightarrow> string \<Rightarrow> string \<Rightarrow> store_write list" where
  "reset_password_writes e st now rnd token pw =
     (if passwordIssues pw \<noteq> [] then []
      else
        case getUserByResetToken st token of
          None \<Rightarrow> []
        | Some u \<Rightarrow>
            (let expiry = (case resetTokenExpiry u of None \<Rightarrow> 0 | Some t \<Rightarrow> t)
             in if expiry < now then []
                else [UpdatePassword (userId u) (hashPassword e rnd pw)]))"

text \<open>No two users carry the same reset token.\<close>

definition tokens_distinct :: "store \<Rightarrow> bool" where
  "tokens_distinct st =
     (\<forall>u\<in>set (rows st). \<forall>v\<in>set (rows st).
        (case resetToken u of
           None \<Rightarrow> True
         | Some t \<Rightarrow> resetToken v = Some t \<longrightarrow> userId u = userId v))"

section \<open>Hexadecimal round trip\<close>

lemma hexDigit_all:
  "\<forall>n \<in> set [0..<16]. hexVal (hexDigit n) = Some n \<and> hexDigit n \<noteq> CHR ''.''"
  by code_simp

lemma hexVal_hexDigit: "n < 16 \<Longrightarrow> hexVal (hexDigit n) = Some n"
  using hexDigit_all by simp

lemma hexDigit_not_dot: "hexDigit n \<noteq> CHR ''.''"
proof -
  have "hexDigit n = hexDigit (n mod 16)" by (simp add: hexDigit_def)
  moreover have "n mod 16 < 16" by simp
  ultimately show ?thesis using hexDigit_all by simp
qed

lemma fromHex_toHex: "fromHex (toHex bs) = bs"
proof (induction bs)
  case Nil
  show ?case by simp
next
  case (Cons b bs)
  have "unat b < 256" using unsigned_less [of b] by simp
  then have hi: "unat b div 16 < 16" by simp
  have lo: "unat b mod 16 < 16" by simp
  have "(of_nat (16 * (unat b div 16) + unat b mod 16) :: byte) = b"
    by simp
  then show ?case
    using Cons.IH
    by (simp add: hexVal_hexDigit [OF hi] hexVal_hexDigit [OF lo] del: of_nat_add of_nat_mult)
qed

lemma dot_notin_toHex: "CHR ''.'' \<notin> set (toHex bs)"
  by (induction bs) (simp_all add: hexDigit_not_dot [symmetric])

lemma split_no_sep: "sep \<notin> set xs \<Longrightarrow> split sep (xs @ sep # ys) = xs # split sep ys"
  by (induction xs) auto

lemma split_none: "sep \<notin> set xs \<Longrightarrow> split sep xs = [xs]"
  by (induction xs) auto

lemma split_hash_record:
  "split CHR ''.'' (toHex a @ CHR ''.'' # toHex b) = [toHex a, toHex b]"
  using split_no_sep [OF dot_notin_toHex, of a "toHex b"] split_none [OF dot_notin_toHex, of b]
  by simp

section \<open>Hashing and comparing\<close>

lemma hd_split: "hd (split sep xs) = takeWhile (\<lambda>c. c \<noteq> sep) xs"
  by (induction xs) auto

lemma split_nonempty: "split sep xs \<noteq> []"
  by (induction xs) auto

lemma compare_hash:
  "comparePasswords e p1 (hashPassword e rnd p2) =
     timingSafeEqual (scrypt e p2 (toHex rnd) 64) (scrypt e p1 (toHex rnd) 64)"
  by (simp add: comparePasswords_def hashPassword_def split_hash_record fromHex_toHex Let_def)

lemma compare_own_hash: "comparePasswords e p (hashPassword e rnd p) = Inr True"
  by (simp add: compare_hash timingSafeEqual_def)


lemma stub_scrypt_length: "length (stub_scrypt p s n) = n"
  by (simp add: stub_scrypt_def)


text \<open>
  C7 as stated fails: on a stored record without a separator, or with a key part
  that does not decode to 64 bytes, \<open>comparePasswords\<close> throws.
\<close>

theorem comparePasswords_malformed_counterexample:
  "comparePasswords stub_env ''Aa1!aaaa'' ''nodot'' = Inl TypeError \<and>
   comparePasswords stub_env ''Aa1!aaaa'' ''zz.00'' = Inl RangeError"
  by (simp add: comparePasswords_def timingSafeEqual_def stub_env_def stub_scrypt_length hexVal_def)

text \<open>
  C7, amended. \<open>comparePasswords\<close> throws a \<open>TypeError\<close> when the stored
  record has no separator and a \<open>RangeError\<close> when the part before the first
  separator does not decode to 64 bytes; when it does decode to 64 bytes the result is
  a boolean, true exactly when those bytes are the key derived from the supplied
  plaintext and the salt part.
\<close>

theorem comparePasswords_outcomes:
  assumes "\<forall>p s. length (scrypt e p s 64) = 64"
  shows "(CHR ''.'' \<notin> set stored \<longrightarrow> comparePasswords e supplied stored = Inl TypeError) \<and>
         (CHR ''.'' \<notin> set h \<and> length (fromHex h) \<noteq> 64 \<longrightarrow>
            comparePasswords e supplied (h @ ''.'' @ rest) = Inl RangeError) \<and>
         (CHR ''.'' \<notin> set h \<and> length (fromHex h) = 64 \<longrightarrow>
            comparePasswords e supplied (h @ ''.'' @ rest) =
              Inr (fromHex h = scrypt e supplied (takeWhile (\<lambda>c. c \<noteq> CHR ''.'') rest) 64))"
proof (intro conjI impI)
  assume "CHR ''.'' \<notin> set stored"
  then show "comparePasswords e supplied stored = Inl TypeError"
    by (simp add: comparePasswords_def split_none)
next
  assume a: "CHR ''.'' \<notin> set h \<and> length (fromHex h) \<noteq> 64"
  then have s: "split CHR ''.'' (h @ ''.'' @ rest) = h # split CHR ''.'' rest"
    using split_no_sep [of "CHR ''.''" h rest] by simp
  obtain x xs where r: "split CHR ''.'' rest = x # xs"
    using split_nonempty [of "CHR ''.''" rest] by (cases "split CHR ''.'' rest") auto
  show "comparePasswords e supplied (h @ ''.'' @ rest) = Inl RangeError"
    using a assms s r by (simp add: comparePasswords_def timingSafeEqual_def)
next
  assume a: "CHR ''.'' \<notin> set h \<and> length (fromHex h) = 64"
  then have s: "split CHR ''.'' (h @ ''.'' @ rest) = h # split CHR ''.'' rest"
    using split_no_sep [of "CHR ''.''" h rest] by simp
  obtain x xs where r: "split CHR ''.'' rest = x # xs"
    using split_nonempty [of "CHR ''.''" rest] by (cases "split CHR ''.'' rest") auto
  then have x: "x = takeWhile (\<lambda>c. c \<noteq> CHR ''.'') rest"
    using hd_split [of "CHR ''.''" rest] by simp
  show "comparePasswords e supplied (h @ ''.'' @ rest) =
          Inr (fromHex h = scrypt e supplied (takeWhile (\<lambda>c. c \<noteq> CHR ''.'') rest) 64)"
    using a assms s r x by (simp add: comparePasswords_def timingSafeEqual_def)
qed

theorem comparePasswords_outcomes_witness:
  "comparePasswords stub_env ''pw'' ''abcdef'' = Inl TypeError \<and>
   comparePasswords stub_env ''pw'' ''abcd.00'' = Inl RangeError \<and>
   comparePasswords stub_env ''pw'' (toHex (replicate 64 0) @ ''.00'') = Inr False"
proof -
  have len: "\<forall>p s. length (scrypt stub_env p s 64) = 64"
    by (simp add: stub_env_def stub_scrypt_length)
  have d: "CHR ''.'' \<notin> set ''abcdef''" "CHR ''.'' \<notin> set ''abcd''" by simp_all
  have l2: "length (fromHex ''abcd'') \<noteq> 64" by (simp add: hexVal_def)
  have l64: "length (fromHex (toHex (replicate 64 (0::byte)))) = 64"
    by (simp add: fromHex_toHex)
  have ne: "replicate 64 (0::byte) \<noteq> stub_scrypt ''pw'' ''00'' 64"
    by code_simp
  show ?thesis
    using comparePasswords_outcomes [OF len, of "''abcdef''" "''pw''" "''abcd''" "''00''"]
      comparePasswords_outcomes [OF len, of "''abcdef''" "''pw''" "toHex (replicate 64 0)" "''00''"]
      d l2 l64 ne dot_notin_toHex [of "replicate 64 0"]
    by (simp add: fromHex_toHex stub_env_def)
qed

section \<open>Confirming a password reset\<close>

lemma pw_ok: "passwordIssues ''Aa1!aaaa'' = []" "passwordIssues ''Bb2@bbbb'' = []"
  by (simp_all add: passwordIssues_def isUpper_def isLower_def isDigit_def)

lemma find_in_set: "find P xs = Some x \<Longrightarrow> x \<in> set xs \<and> P x"
  by (induction xs) (auto split: if_splits)



text \<open>
  The reset handler's store result is what its statements do to the table, one after
  the other.
\<close>

lemma reset_password_store:
  "fst (reset_password e st now rnd tok pw) =
     foldl apply_write st (reset_password_writes e st now rnd tok pw)"
  by (simp add: reset_password_def reset_password_writes_def Let_def split: option.splits)

text \<open>
  The table keeps reset tokens distinct as long as the random bytes of each request
  are fresh: \<open>/api/forgot-password\<close> with a token no row carries, the password
  update and the insert of a new user all preserve \<open>tokens_distinct\<close>.
\<close>

lemma tokens_distinctD:
  assumes "tokens_distinct st" "u \<in> set (rows st)" "v \<in> set (rows st)"
    "resetToken u = Some t" "resetToken v = Some t"
  shows "userId u = userId v"
proof -
  have "case resetToken u of None \<Rightarrow> True
        | Some t \<Rightarrow> resetToken v = Some t \<longrightarrow> userId u = userId v"
    using assms(1-3) unfolding tokens_distinct_def by blast
  then show ?thesis using assms(4,5) by simp
qed

lemma tokens_distinctI:
  assumes "\<And>u v t. u \<in> set (rows st) \<Longrightarrow> v \<in> set (rows st) \<Longrightarrow>
             resetToken u = Some t \<Longrightarrow> resetToken v = Some t \<Longrightarrow> userId u = userId v"
  shows "tokens_distinct st"
  unfolding tokens_distinct_def
proof (intro ballI)
  fix u v assume "u \<in> set (rows st)" "v \<in> set (rows st)"
  then show "case resetToken u of None \<Rightarrow> True
        | Some t \<Rightarrow> resetToken v = Some t \<longrightarrow> userId u = userId v"
    using assms [of u v] by (cases "resetToken u") simp_all
qed



lemma setResetToken_tokens_distinct:
  assumes d: "tokens_distinct st"
    and fresh: "\<forall>v\<in>set (rows st). resetToken v \<noteq> Some tok"
  shows "tokens_distinct (setResetToken st i tok expiry)"
proof (rule tokens_distinctI)
  fix u' v' t
  assume "u' \<in> set (rows (setResetToken st i tok expiry))"
    "v' \<in> set (rows (setResetToken st i tok expiry))"
    and t: "resetToken u' = Some t" "resetToken v' = Some t"
  then obtain u v where uv: "u \<in> set (rows st)" "v \<in> set (rows st)"
    and u': "u' = (if userId u = i
                  then u\<lparr>resetToken := Some tok, resetTokenExpiry := Some expiry\<rparr> else u)"
    and v': "v' = (if userId v = i
                  then v\<lparr>resetToken := Some tok, resetTokenExpiry := Some expiry\<rparr> else v)"
    by (auto simp add: setResetToken_def)
  show "userId u' = userId v'"
  proof (cases "userId u = i")
    case True
    show ?thesis
    proof (cases "userId v = i")
      case True
      with \<open>userId u = i\<close> u' v' show ?thesis by simp
    next
      case False
      then have "resetToken v = Some tok" using t u' v' \<open>userId u = i\<close> by simp
      then show ?thesis using fresh uv(2) by blast
    qed
  next
    case False
    show ?thesis
    proof (cases "userId v = i")
      case True
      then have "resetToken u = Some tok" using t u' v' \<open>userId u \<noteq> i\<close> by simp
      then show ?thesis using fresh uv(1) by blast
    next
      case nv: False
      then show ?thesis
        using tokens_distinctD [OF d uv, of t] t u' v' \<open>userId u \<noteq> i\<close> by simp
    qed
  qed
qed

lemma forgot_password_tokens_distinct:
  assumes "tokens_distinct st" "\<forall>v\<in>set (rows st). resetToken v \<noteq> Some (toHex rnd)"
  shows "tokens_distinct (f_store (forgot_password e st now rnd mailOk em))"
proof (cases "emailIssues e em \<noteq> [] \<or> getUserByEmail st em = None")
  case True
  then show ?thesis using assms(1) by (auto simp add: forgot_password_def)
next
  case False
  then obtain u where "getUserByEmail st em = Some u" by auto
  with False show ?thesis
    using setResetToken_tokens_distinct [OF assms]
    by (simp add: forgot_password_def Let_def)
qed

lemma updatePassword_tokens_distinct:
  assumes d: "tokens_distinct st"
  shows "tokens_distinct (updatePassword st i h)"
proof (rule tokens_distinctI)
  fix u' v' t
  assume "u' \<in> set (rows (updatePassword st i h))"
    "v' \<in> set (rows (updatePassword st i h))"
    and t: "resetToken u' = Some t" "resetToken v' = Some t"
  then obtain u v where uv: "u \<in> set (rows st)" "v \<in> set (rows st)"
    and u': "u' = (if userId u = i
                  then u\<lparr>password := h, resetToken := None, resetTokenExpiry := None\<rparr> else u)"
    and v': "v' = (if userId v = i
                  then v\<lparr>password := h, resetToken := None, resetTokenExpiry := None\<rparr> else v)"
    by (auto simp add: updatePassword_def)
  have "userId u \<noteq> i" "userId v \<noteq> i" using t u' v' by (auto split: if_splits)
  then show "userId u' = userId v'"
    using tokens_distinctD [OF d uv, of t] t u' v' by simp
qed

lemma createUser_tokens_distinct:
  assumes d: "tokens_distinct st"
  shows "tokens_distinct (fst (createUser st now em pw))"
proof (rule tokens_distinctI)
  fix u v t
  assume "u \<in> set (rows (fst (createUser st now em pw)))"
    "v \<in> set (rows (fst (createUser st now em pw)))"
    and t: "resetToken u = Some t" "resetToken v = Some t"
  then have "u \<in> set (rows st)" "v \<in> set (rows st)"
    by (auto simp add: createUser_def Let_def split: if_splits)
  then show "userId u = userId v"
    using tokens_distinctD [OF d _ _ t] by blast
qed



lemma alice_found: "getUserByResetToken alice_store ''tok'' = Some alice"
  by (simp add: getUserByResetToken_def alice_store_def alice_def)




text \<open>
  C3 as stated fails at the boundary: at \<open>now = expiry\<close> the handler still accepts
  the token.
\<close>

theorem reset_at_expiry_counterexample:
  "snd (reset_password stub_env alice_store 1000 [7] ''tok'' ''Bb2@bbbb'') =
     Resp 200 (Message ''Password updated successfully'')"
  using alice_found by (simp add: reset_password_def pw_ok alice_def)

text \<open>
  C3, amended. For a stored token with expiry \<open>E\<close> and a valid new password, the
  handler refuses the token as expired exactly when \<open>E < now\<close>, and accepts it
  exactly when \<open>now \<le> E\<close>: the token is still accepted at \<open>now = E\<close>.
\<close>

theorem reset_expiry_check:
  assumes "passwordIssues pw = []" "getUserByResetToken st tok = Some u"
    "resetTokenExpiry u = Some E"
  shows "(snd (reset_password e st now rnd tok pw) = Resp 400 (Message ''Reset token has expired'')
            \<longleftrightarrow> E < now) \<and>
         (snd (reset_password e st now rnd tok pw) = Resp 200 (Message ''Password updated successfully'')
            \<longleftrightarrow> now \<le> E)"
  using assms by (auto simp add: reset_password_def)

theorem reset_expiry_check_witness:
  "snd (reset_password stub_env alice_store 1001 [7] ''tok'' ''Bb2@bbbb'') =
     Resp 400 (Message ''Reset token has expired'') \<and>
   snd (reset_password stub_env alice_store 999 [7] ''tok'' ''Bb2@bbbb'') =
     Resp 200 (Message ''Password updated successfully'')"
proof -
  have ex: "resetTokenExpiry alice = Some 1000" by (simp add: alice_def)
  show ?thesis
    using reset_expiry_check [OF pw_ok(2) alice_found ex, of stub_env 1001 "[7]"]
      reset_expiry_check [OF pw_ok(2) alice_found ex, of stub_env 999 "[7]"]
    by simp
qed

text \<open>
  C8 as stated fails: an unknown token and an expired token get different messages.
\<close>

theorem reset_failure_messages_counterexample:
  "snd (reset_password stub_env alice_store 2000 [7] ''nope'' ''Bb2@bbbb'') =
     Resp 400 (Message ''Invalid or expired reset token'') \<and>
   snd (reset_password stub_env alice_store 2000 [7] ''tok'' ''Bb2@bbbb'') =
     Resp 400 (Message ''Reset token has expired'') \<and>
   snd (reset_password stub_env alice_store 2000 [7] ''nope'' ''Bb2@bbbb'') \<noteq>
   snd (reset_password stub_env alice_store 2000 [7] ''tok'' ''Bb2@bbbb'')"
  by (simp add: reset_password_def pw_ok getUserByResetToken_def alice_store_def alice_def)

text \<open>
  C8, amended. Both failures are answered with status 400 and a JSON message, but the
  message tells them apart: \<open>Invalid or expired reset token\<close> when no row holds
  the token, \<open>Reset token has expired\<close> when a row holds it and its expiry is past.
\<close>

theorem reset_failure_messages:
  assumes "passwordIssues pw = []"
  shows "(getUserByResetToken st tok = None \<longrightarrow>
            reset_password e st now rnd tok pw =
              (st, Resp 400 (Message ''Invalid or expired reset token''))) \<and>
         (getUserByResetToken st tok = Some u \<and> resetTokenExpiry u = Some E \<and> E < now \<longrightarrow>
            reset_password e st now rnd tok pw =
              (st, Resp 400 (Message ''Reset token has expired'')))"
  using assms by (simp add: reset_password_def)

theorem reset_failure_messages_witness:
  "reset_password stub_env alice_store 2000 [7] ''nope'' ''Bb2@bbbb'' =
     (alice_store, Resp 400 (Message ''Invalid or expired reset token'')) \<and>
   reset_password stub_env alice_store 2000 [7] ''tok'' ''Bb2@bbbb'' =
     (alice_store, Resp 400 (Message ''Reset token has expired''))"
proof -
  have none: "getUserByResetToken alice_store ''nope'' = None"
    by (simp add: getUserByResetToken_def alice_store_def alice_def)
  have ex: "resetTokenExpiry alice = Some 1000" "(1000::int) < 2000" by (simp_all add: alice_def)
  show ?thesis
    using reset_failure_messages [OF pw_ok(2), of alice_store "''nope''" stub_env 2000 "[7]" alice 1000]
      reset_failure_messages [OF pw_ok(2), of alice_store "''tok''" stub_env 2000 "[7]" alice 1000]
      none alice_found ex
    by simp
qed

section \<open>Requesting a password reset\<close>

lemma stub_email_ok: "emailIssues stub_env ''a@x.com'' = []" "emailIssues stub_env ''ghost@x.com'' = []"
  "emailIssues stub_env ''A@x.com'' = []" "emailIssues stub_env ''g@x.com'' = []"
  by (simp_all add: emailIssues_def stub_env_def stub_isEmail_def)

lemma stub_origin: "origin stub_env = ''http://localhost:5000''"
  by (simp add: origin_def stub_env_def)

text \<open>
  C4 against the code: for a registered address the 200 body carries a \<open>debug\<close>
  object with the reset link, token included; for an unregistered address the body
  is the acknowledgment alone. The status is the same, the bodies are not.
\<close>

theorem forgot_password_bodies_differ:
  "f_response (forgot_password stub_env alice_store 0 (replicate 32 171) True ''a@x.com'') =
     Resp 200 (MessageDebug ack
       (''http://localhost:5000/auth/reset-password?token='' @ toHex (replicate 32 171))) \<and>
   f_response (forgot_password stub_env alice_store 0 (replicate 32 171) True ''ghost@x.com'') =
     Resp 200 (Message ack)"
  by (simp add: forgot_password_def stub_email_ok getUserByEmail_def alice_store_def alice_def
      stub_origin Let_def)

section \<open>Federated login\<close>

text \<open>
  C6 against the code: the first Google login for an unseen address creates one row,
  and \<open>createUser\<close> stores it with \<open>isGoogleUser = False\<close>.
\<close>

theorem google_user_flag_false:
  "googleVerify stub_env empty_store 0 [1] [2] (Some ''g@x.com'') =
     (\<lparr>rows = [\<lparr>userId = 1, email = ''g@x.com'',
                 password = hashPassword stub_env [2] (toHex [1]), createdAt = 0,
                 isGoogleUser = False, resetToken = None, resetTokenExpiry = None\<rparr>],
       nextId = 2\<rparr>,
      DoneUser \<lparr>userId = 1, email = ''g@x.com'',
                password = hashPassword stub_env [2] (toHex [1]), createdAt = 0,
                isGoogleUser = False, resetToken = None, resetTokenExpiry = None\<rparr>)"
  by (simp add: googleVerify_def getUserByEmail_def empty_store_def createUser_def Let_def)

lemma find_append_new: "\<not> list_ex P xs \<Longrightarrow> P y \<Longrightarrow> find P (xs @ [y]) = Some y"
  by (induction xs) auto

text \<open>
  The rest of the federated path: a second login with the same e-mail finds the row
  the first one appended and adds nothing.
\<close>

lemma google_second_login:
  assumes "em \<noteq> []" "getUserByEmail st em = None"
    "googleVerify e st now r1 r2 (Some em) = (st', DoneUser u)"
  shows "googleVerify e st' now' r3 r4 (Some em) = (st', DoneUser u) \<and>
         rows st' = rows st @ [u] \<and> email u = em"
proof -
  have no: "\<not> list_ex (\<lambda>r. email r = em) (rows st)"
    using assms(2) by (simp add: getUserByEmail_def find_None_iff list_ex_iff)
  show ?thesis
    using assms no find_append_new [of "\<lambda>r. email r = em" "rows st"]
    by (auto simp add: googleVerify_def createUser_def Let_def getUserByEmail_def
        split: if_splits)
qed

section \<open>Local login, registration and the current user\<close>

text \<open>
  C9 as stated fails: the lookup is by the e-mail exactly as submitted, so the same
  address in another letter case is an unknown address.
\<close>

theorem login_case_sensitive_counterexample:
  "localVerify stub_env alice_store ''a@x.com'' ''Aa1!aaaa'' = DoneUser alice \<and>
   localVerify stub_env alice_store ''A@x.com'' ''Aa1!aaaa'' = DoneFail ''Invalid email or password''"
proof -
  have "password alice = hashPassword stub_env [] ''Aa1!aaaa''" "email alice = ''a@x.com''"
    by (simp_all add: alice_def)
  then show ?thesis
    by (simp add: localVerify_def getUserByEmail_def alice_store_def compare_own_hash)
qed

text \<open>
  C9, amended. The lookup uses the e-mail exactly as submitted, with no normalisation.
  A user whose row is found under the submitted e-mail and whose stored record is the
  hash of the submitted password is authenticated. An unknown e-mail and a wrong
  password (the comparison returns false) both end in the same failure message,
  \<open>Invalid email or password\<close>.
\<close>

theorem localVerify_outcomes:
  "(getUserByEmail st em = Some u \<and> password u = hashPassword e rnd pw \<longrightarrow>
      localVerify e st em pw = DoneUser u) \<and>
   (getUserByEmail st em = None \<longrightarrow>
      localVerify e st em pw = DoneFail ''Invalid email or password'') \<and>
   (getUserByEmail st em = Some u \<and> comparePasswords e pw (password u) = Inr False \<longrightarrow>
      localVerify e st em pw = DoneFail ''Invalid email or password'') \<and>
   (localVerify e st em pw = DoneUser u \<longrightarrow> email u = em)"
  by (auto simp add: localVerify_def compare_own_hash getUserByEmail_def
      dest: find_in_set split: option.splits sum.splits if_splits)

theorem localVerify_outcomes_witness:
  "localVerify stub_env alice_store ''a@x.com'' ''Aa1!aaaa'' = DoneUser alice \<and>
   localVerify stub_env alice_store ''ghost@x.com'' ''Aa1!aaaa'' = DoneFail ''Invalid email or password'' \<and>
   localVerify stub_env alice_store ''a@x.com'' ''Bb2@bbbb'' = DoneFail ''Invalid email or password'' \<and>
   email alice = ''a@x.com''"
proof -
  have a: "getUserByEmail alice_store ''a@x.com'' = Some alice"
    "getUserByEmail alice_store ''ghost@x.com'' = None"
    by (simp_all add: getUserByEmail_def alice_store_def alice_def)
  have p: "password alice = hashPassword stub_env [] ''Aa1!aaaa''" by (simp add: alice_def)
  have "stub_scrypt ''Aa1!aaaa'' [] 64 \<noteq> stub_scrypt ''Bb2@bbbb'' [] 64"
    by (simp add: stub_scrypt_def)
  then have w: "comparePasswords stub_env ''Bb2@bbbb'' (password alice) = Inr False"
    by (simp add: p compare_hash timingSafeEqual_def stub_env_def stub_scrypt_length)
  show ?thesis
    using localVerify_outcomes [of alice_store "''a@x.com''" alice stub_env "[]" "''Aa1!aaaa''"]
      localVerify_outcomes [of alice_store "''ghost@x.com''" alice stub_env "[]" "''Aa1!aaaa''"]
      localVerify_outcomes [of alice_store "''a@x.com''" alice stub_env "[]" "''Bb2@bbbb''"]
      a p w
    by simp
qed

lemma register_success:
  assumes "a_response (register e st s now rnd sessionOk em pw) = Resp 201 b"
  shows "register e st s now rnd sessionOk em pw =
           \<lparr>a_store = \<lparr>rows = rows st @ [\<lparr>userId = nextId st, email = em,
                           password = hashPassword e rnd pw, createdAt = now,
                           isGoogleUser = False, resetToken = None, resetTokenExpiry = None\<rparr>],
                        nextId = Suc (nextId st)\<rparr>,
            a_session = Some (nextId st),
            a_response = Resp 201 (UserJson \<lparr>userId = nextId st, email = em,
                           password = hashPassword e rnd pw, createdAt = now,
                           isGoogleUser = False, resetToken = None, resetTokenExpiry = None\<rparr>)\<rparr> \<and>
         \<not> list_ex (\<lambda>r. userId r = nextId st) (rows st)"
  using assms
  by (cases st)
     (auto simp add: register_def Let_def createUser_def req_login_def list_ex_iff
      split: if_splits option.splits)

lemma stub_register:
  "a_response (register stub_env empty_store None 0 [5] True ''a@x.com'' ''Aa1!aaaa'') =
     Resp 201 (UserJson \<lparr>userId = 1, email = ''a@x.com'',
                 password = hashPassword stub_env [5] ''Aa1!aaaa'', createdAt = 0,
                 isGoogleUser = False, resetToken = None, resetTokenExpiry = None\<rparr>)"
  by (simp add: register_def stub_email_ok pw_ok getUserByEmail_def empty_store_def
      createUser_def req_login_def Let_def)

text \<open>
  C5 as stated fails: the 201 body of a successful register is the whole new row,
  with the stored password hash in its \<open>password\<close> field.
\<close>

theorem register_body_counterexample:
  "a_response (register stub_env empty_store None 0 [5] True ''a@x.com'' ''Aa1!aaaa'') =
     Resp 201 (UserJson \<lparr>userId = 1, email = ''a@x.com'',
                 password = hashPassword stub_env [5] ''Aa1!aaaa'', createdAt = 0,
                 isGoogleUser = False, resetToken = None, resetTokenExpiry = None\<rparr>)"
  using stub_register .

text \<open>
  C5, amended. The 201 body of a successful register, and the 200 bodies of login and
  of current-user, are the complete stored user row as JSON, and so include the
  \<open>password\<close> field with the stored hash record: for register the row just
  inserted (its password is the hash of the submitted one), for login the row found
  under the submitted e-mail, for current-user the row of the session's user id.
\<close>

theorem bodies_are_stored_rows:
  "(a_response (register e st s now rnd sessionOk em pw) = Resp 201 b \<longrightarrow>
      (\<exists>u. b = UserJson u \<and> password u = hashPassword e rnd pw \<and>
           getUser (a_store (register e st s now rnd sessionOk em pw)) (userId u) = Some u)) \<and>
   (a_response (login e st s sessionOk em pw) = Resp 200 b \<longrightarrow>
      (\<exists>u. b = UserJson u \<and> getUserByEmail st em = Some u)) \<and>
   (api_user st s = Resp 200 b \<longrightarrow>
      (\<exists>u i. b = UserJson u \<and> s = Some i \<and> getUser st i = Some u))"
proof (intro conjI impI)
  assume a: "a_response (register e st s now rnd sessionOk em pw) = Resp 201 b"
  show "\<exists>u. b = UserJson u \<and> password u = hashPassword e rnd pw \<and>
           getUser (a_store (register e st s now rnd sessionOk em pw)) (userId u) = Some u"
    using register_success [OF a] a
    by (auto simp add: getUser_def find_append_new)
next
  assume "a_response (login e st s sessionOk em pw) = Resp 200 b"
  then show "\<exists>u. b = UserJson u \<and> getUserByEmail st em = Some u"
    by (auto simp add: login_def localVerify_def req_login_def
        split: if_splits option.splits sum.splits verify_result.splits)
next
  assume "api_user st s = Resp 200 b"
  then show "\<exists>u i. b = UserJson u \<and> s = Some i \<and> getUser st i = Some u"
    by (auto simp add: api_user_def deserializeUser_def split: option.splits)
qed

lemma alice_login:
  "login stub_env alice_store None True ''a@x.com'' ''Aa1!aaaa'' =
     \<lparr>a_store = alice_store, a_session = Some 1, a_response = Resp 200 (UserJson alice)\<rparr>"
proof -
  have "password alice = hashPassword stub_env [] ''Aa1!aaaa''" "email alice = ''a@x.com''"
    "userId alice = 1"
    by (simp_all add: alice_def)
  then show ?thesis
    by (simp add: login_def localVerify_def getUserByEmail_def alice_store_def compare_own_hash
        req_login_def)
qed

lemma alice_current: "api_user alice_store (Some 1) = Resp 200 (UserJson alice)"
  by (simp add: api_user_def deserializeUser_def getUser_def alice_store_def alice_def)

theorem bodies_are_stored_rows_witness:
  "a_response (login stub_env alice_store None True ''a@x.com'' ''Aa1!aaaa'') =
     Resp 200 (UserJson alice) \<and>
   getUserByEmail alice_store ''a@x.com'' = Some alice \<and>
   api_user alice_store (Some 1) = Resp 200 (UserJson alice) \<and>
   getUser alice_store 1 = Some alice \<and>
   password alice = hashPassword stub_env [] ''Aa1!aaaa'' \<and>
   (\<exists>u. a_response (register stub_env empty_store None 0 [5] True ''a@x.com'' ''Aa1!aaaa'') =
           Resp 201 (UserJson u) \<and>
        password u = hashPassword stub_env [5] ''Aa1!aaaa'')"
proof -
  note r = stub_register
  have p: "password alice = hashPassword stub_env [] ''Aa1!aaaa''" by (simp add: alice_def)
  show ?thesis
    using bodies_are_stored_rows [of stub_env empty_store None 0 "[5]" True "''a@x.com''"
        "''Aa1!aaaa''" "UserJson \<lparr>userId = 1, email = ''a@x.com'',
                 password = hashPassword stub_env [5] ''Aa1!aaaa'', createdAt = 0,
                 isGoogleUser = False, resetToken = None, resetTokenExpiry = None\<rparr>"]
      bodies_are_stored_rows [where e = stub_env and st = alice_store and s = None
        and sessionOk = True and em = "''a@x.com''" and pw = "''Aa1!aaaa''" and b = "UserJson alice"]
      bodies_are_stored_rows [where st = alice_store and s = "Some 1" and b = "UserJson alice"]
      r p alice_login alice_current
    by auto
qed

text \<open>
  C10. Whenever register answers 201, the session it leaves holds the id of the
  user just created, and the current-user request on the resulting store and session
  answers 200 with that same user (the body of the 201), not 401.
\<close>

theorem register_logs_in:
  assumes "a_response (register e st s now rnd sessionOk em pw) = Resp 201 b"
  shows "\<exists>u. b = UserJson u \<and> email u = em \<and>
           a_session (register e st s now rnd sessionOk em pw) = Some (userId u) \<and>
           api_user (a_store (register e st s now rnd sessionOk em pw))
                    (a_session (register e st s now rnd sessionOk em pw)) = Resp 200 (UserJson u)"
  using register_success [OF assms] assms
  by (auto simp add: api_user_def deserializeUser_def getUser_def find_append_new)

theorem register_logs_in_witness:
  "a_response (register stub_env empty_store None 0 [5] True ''a@x.com'' ''Aa1!aaaa'') =
     Resp 201 (UserJson \<lparr>userId = 1, email = ''a@x.com'',
                 password = hashPassword stub_env [5] ''Aa1!aaaa'', createdAt = 0,
                 isGoogleUser = False, resetToken = None, resetTokenExpiry = None\<rparr>) \<and>
   a_session (register stub_env empty_store None 0 [5] True ''a@x.com'' ''Aa1!aaaa'') = Some 1 \<and>
   api_user (a_store (register stub_env empty_store None 0 [5] True ''a@x.com'' ''Aa1!aaaa''))
            (a_session (register stub_env empty_store None 0 [5] True ''a@x.com'' ''Aa1!aaaa'')) =
     Resp 200 (UserJson \<lparr>userId = 1, email = ''a@x.com'',
                 password = hashPassword stub_env [5] ''Aa1!aaaa'', createdAt = 0,
                 isGoogleUser = False, resetToken = None, resetTokenExpiry = None\<rparr>)"
proof -
  note r = stub_register
  show ?thesis
    using register_logs_in [OF r] r by auto
qed

end
